theory Spec2Isabelle
  imports Complex_Main "HOL-Library.Sublist" "HOL-Library.Multiset"
    "HOL-Library.Code_Target_Nat"
begin

section \<open>The refine synthesis tool of \<open>response /refine_synthesis_tool.py\<close>\<close>

text \<open>
  The development embeds the class \<open>RefineSynthesisTool\<close> and its configuration
  \<open>RefineConfig\<close>: the token estimate, the relevance ordering, the greedy batch planner
  and the initial-synthesis / refine loop around the Gemini call.

  Conventions of the embedding.
  \<^item> A Python \<open>str\<close> is a \<open>string\<close>; a \<open>char\<close> stands for the code point of the
    same number, so the texts covered are those over the code points below 256.
  \<^item> Python's \<open>int\<close> is \<open>int\<close>, or \<open>nat\<close> for a length or a counter that starts at a
    non-negative value and only grows.
  \<^item> A Python \<open>float\<close> is the rational number it denotes, and an operation on floats is
    the exact operation followed by the rounding to the nearest double
    (subsection \<open>Double arithmetic\<close>).
  \<^item> The built-in \<open>sum\<close> adds floats differently from one interpreter version to the
    next; its algorithm is a parameter \<open>float_sum\<close> of \<open>refine_synthesis\<close>.
  \<^item> The \<open>print\<close> calls and the wall-clock fields \<open>processing_time\<close> and
    \<open>total_processing_time\<close> are left out: no definition below reads them.
  \<^item> An exception that leaves a function is a value \<open>Inl e\<close> of the result.
\<close>

subsection \<open>Python built-ins used by the tool\<close>

datatype error = ValueError string | IndexError | ZeroDivisionError

text \<open>\<open>str.isspace\<close> on the code points below 256: TAB..CR, FS..US, SPACE, NEL, NBSP.\<close>

definition isspace :: "char \<Rightarrow> bool" where
  "isspace c =
     (let n = (of_char c :: nat)
      in (9 \<le> n \<and> n \<le> 13) \<or> (28 \<le> n \<and> n \<le> 32) \<or> n = 133 \<or> n = 160)"

text \<open>
  \<open>str.split()\<close> without a separator: the maximal runs of non-whitespace characters, in
  order. \<open>split_from w s\<close> scans \<open>s\<close> with the word \<open>w\<close> read so far.
\<close>

primrec split_from :: "string \<Rightarrow> string \<Rightarrow> string list" where
  "split_from w [] = (if w = [] then [] else [w])"
| "split_from w (c # cs) =
     (if isspace c then (if w = [] then split_from [] cs else w # split_from [] cs)
      else split_from (w @ [c]) cs)"

definition split :: "string \<Rightarrow> string list" where
  "split text = split_from [] text"

text \<open>
  \<open>str.lower()\<close> on the code points below 256: \<open>A..Z\<close> and the Latin-1 capitals
  \<open>0xC0..0xDE\<close> (without the multiplication sign \<open>0xD7\<close>) move up by 32.
\<close>

definition lower_char :: "char \<Rightarrow> char" where
  "lower_char c =
     (let n = (of_char c :: nat)
      in if (65 \<le> n \<and> n \<le> 90) \<or> (192 \<le> n \<and> n \<le> 222 \<and> n \<noteq> 215)
         then char_of (n + 32) else c)"

definition lower :: "string \<Rightarrow> string" where
  "lower text = map lower_char text"

text \<open>
  \<open>sorted(xs, key=key, reverse=True)\<close>. CPython keeps the sort stable under
  \<open>reverse=True\<close> by reversing the list, sorting it stably in ascending key order, and
  reversing the result; \<open>sort_key\<close> is a stable ascending sort.
\<close>

definition sorted_reverse :: "('a \<Rightarrow> nat) \<Rightarrow> 'a list \<Rightarrow> 'a list" where
  "sorted_reverse key xs = rev (sort_key key (rev xs))"

text \<open>\<open>str(n)\<close> for a non-negative integer, as the f-strings of the prompts format it.\<close>

fun str_nat :: "nat \<Rightarrow> string" where
  "str_nat n =
     (if n < 10 then [''0123456789'' ! n]
      else str_nat (n div 10) @ [''0123456789'' ! (n mod 10)])"

text \<open>\<open>sep.join(xs)\<close>.\<close>

fun join :: "string \<Rightarrow> string list \<Rightarrow> string" where
  "join sep [] = []"
| "join sep [x] = x"
| "join sep (x # y # ys) = x @ sep @ join sep (y # ys)"

subsection \<open>Double arithmetic\<close>

text \<open>
  \<open>estimate_tokens\<close> returns the double \<open>len(text.split()) * 1.33\<close>, and the tool adds
  such doubles up. A double that is 0 or at least 1 is a multiple of \<open>1 / 2 ^ 52\<close>; the
  literal \<open>1.33\<close> is the double \<open>748723438050345 / 2 ^ 49\<close>; so every product and every
  sum formed by the tool is a non-negative multiple of \<open>1 / 2 ^ 52\<close>. On such a number
  \<open>fl\<close> is the rounding to the nearest double, ties to even: \<open>round53\<close> rounds the
  numerator over \<open>2 ^ 52\<close> to 53 significant bits. The exponent range is not modelled
  (no overflow to infinity); negative numbers and NaN do not occur.
\<close>

text \<open>\<open>int.bit_length\<close> of a non-negative integer.\<close>

fun bit_length :: "nat \<Rightarrow> nat" where
  "bit_length n = (if n = 0 then 0 else Suc (bit_length (n div 2)))"

declare bit_length.simps [simp del]

text \<open>Rounding to the nearest multiple of \<open>2 ^ s\<close>, a tie going to the even quotient.\<close>

definition round_shift :: "nat \<Rightarrow> nat \<Rightarrow> nat" where
  "round_shift s k =
     (let q = k div 2 ^ s; r = k mod 2 ^ s
      in if 2 * r < 2 ^ s \<or> (2 * r = 2 ^ s \<and> even q) then q * 2 ^ s else (q + 1) * 2 ^ s)"

definition round53 :: "nat \<Rightarrow> nat" where
  "round53 k = round_shift (bit_length k - 53) k"

definition fl :: "rat \<Rightarrow> rat" where
  "fl x = of_nat (round53 (nat \<lfloor>x * 2 ^ 52\<rfloor>)) / 2 ^ 52"

text \<open>
  The conversion of an \<open>int\<close> to a float (the nearest double), the sum and the product
  of two floats, and the literal \<open>1.33\<close>.
\<close>

definition float_of_nat :: "nat \<Rightarrow> rat" where
  "float_of_nat n = of_nat (round53 n)"

definition fadd :: "rat \<Rightarrow> rat \<Rightarrow> rat" where
  "fadd a b = fl (a + b)"

definition fmul :: "rat \<Rightarrow> rat \<Rightarrow> rat" where
  "fmul a b = fl (a * b)"

definition float_1_33 :: rat where
  "float_1_33 = 748723438050345 / 2 ^ 49"

text \<open>
  \<open>sum(xs)\<close> on a sequence of floats. With the start value 0 an empty sequence gives the
  \<open>int\<close> 0 on every interpreter. On a non-empty sequence the result depends on the
  version: up to CPython 3.11 the floats are added from left to right in double
  arithmetic, which is \<open>naive_sum\<close>; from CPython 3.12 on the additions are compensated.
  \<open>float_sum\<close> is the interpreter's algorithm on a non-empty sequence.
\<close>

definition naive_sum :: "rat list \<Rightarrow> rat" where
  "naive_sum xs = foldl fadd 0 xs"

definition sum_builtin :: "(rat list \<Rightarrow> rat) \<Rightarrow> rat list \<Rightarrow> rat" where
  "sum_builtin float_sum xs = (if xs = [] then 0 else float_sum xs)"

subsection \<open>\<open>RefineConfig\<close>\<close>

record RefineConfig =
  model_name :: string
  max_tokens_per_request :: int
  response_reserve_tokens :: int
  prompt_overhead_tokens :: int
  average_chunk_tokens :: int
  temperature :: rat

text \<open>The dataclass defaults.\<close>

definition RefineConfig_default :: RefineConfig where
  "RefineConfig_default =
     \<lparr>model_name = ''gemini-1.5-pro'',
      max_tokens_per_request = 1000000,
      response_reserve_tokens = 4000,
      prompt_overhead_tokens = 1000,
      average_chunk_tokens = 530,
      temperature = 1 / 10\<rparr>"

definition max_content_tokens :: "RefineConfig \<Rightarrow> int" where
  "max_content_tokens cfg =
     max_tokens_per_request cfg - response_reserve_tokens cfg - prompt_overhead_tokens cfg"

text \<open>
  The property \<open>chunks_per_batch\<close> is a floor division; Python raises
  \<open>ZeroDivisionError\<close> when \<open>average_chunk_tokens\<close> is 0.
\<close>

definition chunks_per_batch :: "RefineConfig \<Rightarrow> error + int" where
  "chunks_per_batch cfg =
     (if average_chunk_tokens cfg = 0 then Inl ZeroDivisionError
      else Inr (max_content_tokens cfg div average_chunk_tokens cfg))"

subsection \<open>Token estimate, prioritization, batch planning\<close>

definition estimate_tokens :: "string \<Rightarrow> rat" where
  "estimate_tokens text = fmul (float_of_nat (length (split text))) float_1_33"

text \<open>
  \<open>prioritize_chunks\<close>: the score of a chunk is the size of the intersection of the set
  of lowercased query words with the set of lowercased chunk words.
\<close>

definition relevance_score :: "string set \<Rightarrow> string \<Rightarrow> nat" where
  "relevance_score query_keywords chunk =
     (let chunk_words = set (split (lower chunk))
      in card (query_keywords \<inter> chunk_words))"

definition prioritize_chunks :: "string list \<Rightarrow> string \<Rightarrow> string list" where
  "prioritize_chunks chunks user_query =
     (let query_keywords = set (split (lower user_query));
          scored_chunks = map (\<lambda>chunk. (chunk, relevance_score query_keywords chunk)) chunks
      in map fst (sorted_reverse snd scored_chunks))"

text \<open>
  \<open>create_batches\<close>: the \<open>for\<close> loop over the chunks, with the loop variables
  \<open>batches\<close>, \<open>current_batch\<close> and \<open>current_tokens\<close> as arguments; the first equation
  is the code after the loop.
\<close>

fun create_batches_loop ::
  "RefineConfig \<Rightarrow> string list \<Rightarrow> string list list \<Rightarrow> string list \<Rightarrow> rat \<Rightarrow> string list list"
where
  "create_batches_loop cfg [] batches current_batch current_tokens =
     (if current_batch \<noteq> [] then batches @ [current_batch] else batches)"
| "create_batches_loop cfg (chunk # chunks) batches current_batch current_tokens =
     (let chunk_tokens = estimate_tokens chunk
      in if fadd current_tokens chunk_tokens > of_int (max_content_tokens cfg)
            \<and> current_batch \<noteq> []
         then create_batches_loop cfg chunks (batches @ [current_batch]) [chunk] chunk_tokens
         else create_batches_loop cfg chunks batches (current_batch @ [chunk])
                (fadd current_tokens chunk_tokens))"

definition create_batches :: "RefineConfig \<Rightarrow> string list \<Rightarrow> string list list" where
  "create_batches cfg chunks = create_batches_loop cfg chunks [] [] 0"

subsection \<open>Prompts\<close>

text \<open>The two f-string templates, piece by piece; \<open>\<newline>\<close> is the line feed.\<close>

definition create_initial_prompt :: "string \<Rightarrow> string list \<Rightarrow> nat \<Rightarrow> string" where
  "create_initial_prompt user_query chunks total_batches =
     (let chunks_text = join ''\<newline>\<newline>---CHUNK SEPARATOR---\<newline>\<newline>'' chunks
      in ''You are a document analysis expert. Analyze the retrieved content and provide a comprehensive response to the user's query.\<newline>''
       @ ''\<newline>''
       @ ''USER QUERY: '' @ user_query @ ''\<newline>''
       @ ''\<newline>''
       @ ''RETRIEVED CONTENT (Batch 1 of '' @ str_nat total_batches @ ''):\<newline>''
       @ chunks_text @ ''\<newline>''
       @ ''\<newline>''
       @ ''INSTRUCTIONS:\<newline>''
       @ ''1. Provide a thorough, well-structured response addressing the user's query\<newline>''
       @ ''2. Use specific information from the retrieved content with citations where appropriate\<newline>''
       @ ''3. Structure your response with clear headings and bullet points if helpful\<newline>''
       @ ''4. Include relevant examples, definitions, or explanations\<newline>''
       @ ''5. This is batch 1 of '' @ str_nat total_batches
       @ '' - additional content will follow to refine this response\<newline>''
       @ ''6. Focus on accuracy and completeness based on the available content\<newline>''
       @ ''\<newline>''
       @ ''Generate your comprehensive initial response:'')"

definition create_refine_prompt ::
  "string \<Rightarrow> string \<Rightarrow> string list \<Rightarrow> nat \<Rightarrow> nat \<Rightarrow> string"
where
  "create_refine_prompt user_query current_response new_chunks batch_num total_batches =
     (let new_content = join ''\<newline>\<newline>---CHUNK SEPARATOR---\<newline>\<newline>'' new_chunks
      in ''You are refining a response with additional retrieved content. Improve and expand the current response using the new information.\<newline>''
       @ ''\<newline>''
       @ ''USER QUERY: '' @ user_query @ ''\<newline>''
       @ ''\<newline>''
       @ ''CURRENT RESPONSE:\<newline>''
       @ current_response @ ''\<newline>''
       @ ''\<newline>''
       @ ''NEW RETRIEVED CONTENT (Batch '' @ str_nat batch_num @ '' of ''
       @ str_nat total_batches @ ''):\<newline>''
       @ new_content @ ''\<newline>''
       @ ''\<newline>''
       @ ''INSTRUCTIONS:\<newline>''
       @ ''1. Refine the current response by incorporating valuable new information\<newline>''
       @ ''2. Correct any inconsistencies if new content contradicts previous information\<newline>''
       @ ''3. Add important details, examples, or clarifications from the new content\<newline>''
       @ ''4. Maintain the overall structure and coherent flow\<newline>''
       @ ''5. Remove redundant information but ensure completeness\<newline>''
       @ ''6. Integrate new citations or references appropriately\<newline>''
       @ ''7. Keep the response focused on the user's query\<newline>''
       @ ''\<newline>''
       @ ''Provide the refined and improved response:'')"

subsection \<open>The tool and the Gemini call\<close>

text \<open>
  The model object of \<open>google.generativeai\<close> is external. One call of
  \<open>generate_content\<close> either gives a response whose \<open>text\<close> is read, or an exception
  with message \<open>str(e)\<close> is raised inside the \<open>try\<close> block. The answer to a call is
  \<open>model n prompt temperature max_output_tokens\<close>, where \<open>n\<close> is the number of calls
  made before it in the run: the service may answer the same prompt differently from one
  call to the next.
\<close>

datatype api_reply = Text string | Raised string

type_synonym generative_model = "nat \<Rightarrow> string \<Rightarrow> rat \<Rightarrow> int \<Rightarrow> api_reply"

record RefineSynthesisTool =
  api_key :: string
  model :: generative_model
  config :: RefineConfig

text \<open>
  \<open>__init__\<close>. \<open>GEMINI_API_KEY\<close> is the value of the environment variable, \<open>genai\<close>
  stands for \<open>genai.GenerativeModel\<close>. \<open>api_key or os.getenv(...)\<close> takes the
  variable when the argument is \<open>None\<close> or empty; the last \<open>print\<close> reads
  \<open>chunks_per_batch\<close>, so its exception leaves the constructor.
\<close>

definition RefineSynthesisTool_init ::
  "(string \<Rightarrow> generative_model) \<Rightarrow> string option \<Rightarrow> string option \<Rightarrow> RefineConfig option
     \<Rightarrow> error + RefineSynthesisTool"
where
  "RefineSynthesisTool_init genai GEMINI_API_KEY api_key_arg config_arg =
     (let key = (case api_key_arg of
                   None \<Rightarrow> GEMINI_API_KEY
                 | Some k \<Rightarrow> if k \<noteq> [] then Some k else GEMINI_API_KEY)
      in case key of
           None \<Rightarrow> Inl (ValueError ''Gemini API key required. Set GEMINI_API_KEY environment variable or pass api_key parameter.'')
         | Some k \<Rightarrow>
             if k = [] then Inl (ValueError ''Gemini API key required. Set GEMINI_API_KEY environment variable or pass api_key parameter.'')
             else
               (let m = genai (case config_arg of Some c \<Rightarrow> model_name c | None \<Rightarrow> ''gemini-1.5-pro'');
                    cfg = (case config_arg of Some c \<Rightarrow> c | None \<Rightarrow> RefineConfig_default)
                in case chunks_per_batch cfg of
                     Inl e \<Rightarrow> Inl e
                   | Inr _ \<Rightarrow> Inr \<lparr>api_key = k, model = m, config = cfg\<rparr>))"

text \<open>
  The calls made to the model are the effect of a run: a \<open>call\<close> is the prompt sent and
  the string \<open>gemini_generate\<close> returned for it. \<open>gemini_generate\<close> takes the calls
  made so far and returns its string with the calls extended.
\<close>

type_synonym call = "string \<times> string"

definition gemini_generate :: "RefineSynthesisTool \<Rightarrow> call list \<Rightarrow> string \<Rightarrow> string \<times> call list" where
  "gemini_generate self calls prompt =
     (let text =
        (case model self (length calls) prompt
                (temperature (config self)) (response_reserve_tokens (config self)) of
           Text t \<Rightarrow> if t \<noteq> [] then t else ''Error: No response generated from Gemini API''
         | Raised e \<Rightarrow> ''Error: Gemini API call failed - '' @ e)
      in (text, calls @ [(prompt, text)]))"

subsection \<open>\<open>refine_synthesis\<close>\<close>

text \<open>
  The result dictionary, without its two wall-clock entries. The keys \<open>config\<close>,
  \<open>model_name\<close> and \<open>max_content_tokens\<close> of the result carry the prefix
  \<open>result_\<close> or \<open>config_\<close>, the plain names being taken by the tool's fields.
\<close>

record log_entry =
  batch_number :: nat
  chunk_count :: nat
  action :: string

record metadata =
  user_query :: string
  total_chunks :: nat
  total_batches :: nat
  total_tokens_estimated :: rat
  processing_strategy :: string
  prioritized :: bool

record result_config =
  config_model_name :: string
  chunks_per_batch_limit :: int
  config_max_content_tokens :: int

record synthesis_result =
  response :: string
  metadata :: metadata
  processing_log :: "log_entry list"
  result_config :: result_config

text \<open>Step 2 of \<open>refine_synthesis\<close>: the batches to process.\<close>

definition processing_batches ::
  "(rat list \<Rightarrow> rat) \<Rightarrow> RefineConfig \<Rightarrow> string list \<Rightarrow> string list list"
where
  "processing_batches float_sum cfg chunks =
     (let total_tokens = sum_builtin float_sum (map estimate_tokens chunks)
      in if total_tokens \<le> of_int (max_content_tokens cfg) then [chunks]
         else create_batches cfg chunks)"

text \<open>
  Step 4: the loop \<open>for i, batch in enumerate(batches[1:], 2)\<close>, with \<open>i\<close>,
  \<open>current_response\<close>, the processing log and the calls made as arguments.
\<close>

fun refine_loop ::
  "RefineSynthesisTool \<Rightarrow> string \<Rightarrow> nat \<Rightarrow> nat \<Rightarrow> string list list \<Rightarrow> string
     \<Rightarrow> log_entry list \<Rightarrow> call list \<Rightarrow> string \<times> log_entry list \<times> call list"
where
  "refine_loop self query n_batches i [] current_response entries calls =
     (current_response, entries, calls)"
| "refine_loop self query n_batches i (batch # rest) current_response entries calls =
     (let refine_prompt = create_refine_prompt query current_response batch i n_batches;
          (refined_response, calls') = gemini_generate self calls refine_prompt
      in refine_loop self query n_batches (i + 1) rest refined_response
           (entries @
              [\<lparr>batch_number = i, chunk_count = length batch, action = ''refine_synthesis''\<rparr>])
           calls')"

text \<open>
  \<open>refine_synthesis\<close> returns the result dictionary, or the exception that left it,
  together with the calls made to the model. \<open>batches[0]\<close> raises \<open>IndexError\<close> on an
  empty list of batches, before any call; \<open>chunks_per_batch\<close> is read when the result
  is built, after the last call.
\<close>

definition refine_synthesis ::
  "(rat list \<Rightarrow> rat) \<Rightarrow> RefineSynthesisTool \<Rightarrow> string \<Rightarrow> string list \<Rightarrow> bool
     \<Rightarrow> (error + synthesis_result) \<times> call list"
where
  "refine_synthesis float_sum self query chunks_arg prioritize =
     (let chunks = (if prioritize then prioritize_chunks chunks_arg query else chunks_arg);
          total_tokens = sum_builtin float_sum (map estimate_tokens chunks);
          batches = processing_batches float_sum (config self) chunks
      in case batches of
           [] \<Rightarrow> (Inl IndexError, [])
         | first_batch # later_batches \<Rightarrow>
             (let initial_prompt = create_initial_prompt query first_batch (length batches);
                  (initial_response, calls1) = gemini_generate self [] initial_prompt;
                  (current_response, entries, calls) =
                     refine_loop self query (length batches) 2 later_batches initial_response
                       [\<lparr>batch_number = 1, chunk_count = length first_batch,
                         action = ''initial_synthesis''\<rparr>]
                       calls1
              in case chunks_per_batch (config self) of
                   Inl e \<Rightarrow> (Inl e, calls)
                 | Inr limit \<Rightarrow>
                     (Inr \<lparr>response = current_response,
                           metadata =
                             \<lparr>user_query = query,
                              total_chunks = length chunks,
                              total_batches = length batches,
                              total_tokens_estimated = total_tokens,
                              processing_strategy =
                                (if length batches = 1 then ''single_batch'' else ''multi_batch''),
                              prioritized = prioritize\<rparr>,
                           processing_log = entries,
                           result_config =
                             \<lparr>config_model_name = model_name (config self),
                              chunks_per_batch_limit = limit,
                              config_max_content_tokens = max_content_tokens (config self)\<rparr>\<rparr>,
                      calls)))"

subsection \<open>Auxiliary notions and example inputs\<close>

text \<open>
  The non-negative multiple of \<open>1 / 2 ^ 52\<close> with numerator \<open>k\<close>: the values of \<open>fl\<close>
  have this form.
\<close>

definition double :: "nat \<Rightarrow> rat" where
  "double k = of_nat k / 2 ^ 52"

text \<open>
  The budget condition on one batch: its estimates, added from left to right in double
  arithmetic, give at most the budget, or it is a single fragment that is over the budget
  by itself.
\<close>

definition within_budget :: "RefineConfig \<Rightarrow> string list \<Rightarrow> bool" where
  "within_budget cfg batch =
     (naive_sum (map estimate_tokens batch) \<le> of_int (max_content_tokens cfg)
      \<or> (\<exists>chunk. batch = [chunk] \<and> estimate_tokens chunk > of_int (max_content_tokens cfg)))"

text \<open>
  The default configuration with the request ceiling lowered: content budgets of 4 and of
  133.
\<close>

definition config_budget_133 :: RefineConfig where
  "config_budget_133 = RefineConfig_default\<lparr>max_tokens_per_request := 5133\<rparr>"

definition config_budget_4 :: RefineConfig where
  "config_budget_4 = RefineConfig_default\<lparr>max_tokens_per_request := 5004\<rparr>"

text \<open>
  A call of the model fails when \<open>generate_content\<close> raises or the response has no text:
  these are the two cases in which \<open>gemini_generate\<close> returns an error string.
\<close>

definition failed :: "api_reply \<Rightarrow> bool" where
  "failed reply = (case reply of Raised e \<Rightarrow> True | Text t \<Rightarrow> t = [])"

text \<open>
  Three stand-ins for the remote model: one that always answers \<open>ANSWER\<close>, one whose
  second call raises, and one that answers with the prompt it was sent.
\<close>

definition answer_model :: generative_model where
  "answer_model = (\<lambda>n prompt t m. Text ''ANSWER'')"

definition fail_second_model :: generative_model where
  "fail_second_model =
     (\<lambda>n prompt t m. if n = 1 then Raised ''quota exceeded'' else Text ''ANSWER'')"

definition echo_model :: generative_model where
  "echo_model = (\<lambda>n prompt t m. Text prompt)"

text \<open>
  A stand-in for \<open>genai.GenerativeModel\<close> that returns the given model for every model
  name; content budgets of 1 and of -4000; and the tool the constructor builds from a
  model and a configuration when the key \<open>key\<close> is passed.
\<close>

definition constant_genai :: "generative_model \<Rightarrow> string \<Rightarrow> generative_model" where
  "constant_genai m name = m"

definition config_budget_1 :: RefineConfig where
  "config_budget_1 = RefineConfig_default\<lparr>max_tokens_per_request := 5001\<rparr>"

definition config_budget_negative :: RefineConfig where
  "config_budget_negative = RefineConfig_default\<lparr>max_tokens_per_request := 1000\<rparr>"

definition tool_with :: "generative_model \<Rightarrow> RefineConfig \<Rightarrow> RefineSynthesisTool" where
  "tool_with m cfg = \<lparr>api_key = ''key'', model = m, config = cfg\<rparr>"

text \<open>Three one-word fragments: under a budget of 1 each of them is a batch.\<close>

definition three_fragments :: "string list" where
  "three_fragments = [''alpha'', ''beta'', ''gamma'']"

text \<open>
  A fragment of \<open>n\<close> words, and one of \<open>n\<close> words the first of which is
  \<open>capital\<close>. Three fragments of 39, 1 and 60 words, whose estimates add up to exactly
  133.0 in double arithmetic from left to right, while their exact sum is larger. Five
  fragments of 3, 52, 37, 1 and 7 words, the third and the fifth about \<open>capital\<close>; their
  estimates add up to less than 133 in the order given, and to more than 133 in the order
  of relevance to the query \<open>capital\<close>.
\<close>

definition repeated_words :: "nat \<Rightarrow> string" where
  "repeated_words n = concat (replicate n ''w '')"

definition capital_words :: "nat \<Rightarrow> string" where
  "capital_words n = ''capital '' @ repeated_words (n - 1)"

definition fragments_39_1_60 :: "string list" where
  "fragments_39_1_60 = [repeated_words 39, repeated_words 1, repeated_words 60]"

definition fragments_3_52_37_1_7 :: "string list" where
  "fragments_3_52_37_1_7 =
     [repeated_words 3, repeated_words 52, capital_words 37, repeated_words 1, capital_words 7]"

section \<open>Properties of the double arithmetic\<close>

subsection \<open>Bit length\<close>

lemma bit_length_0: "bit_length 0 = 0"
  by (simp add: bit_length.simps)

lemma bit_length_pos: "n \<noteq> 0 \<Longrightarrow> bit_length n = Suc (bit_length (n div 2))"
  by (simp add: bit_length.simps [of n])

lemma bit_length_upper: "n < 2 ^ bit_length n"
proof (induction n rule: bit_length.induct)
  case (1 n)
  show ?case
  proof (cases "n = 0")
    case True
    then show ?thesis by (simp add: bit_length_0)
  next
    case False
    with 1 have "n div 2 < 2 ^ bit_length (n div 2)" by simp
    then have "n < 2 * 2 ^ bit_length (n div 2)" by linarith
    with False show ?thesis by (simp add: bit_length_pos)
  qed
qed

lemma bit_length_lower: "n \<noteq> 0 \<Longrightarrow> 2 ^ (bit_length n - 1) \<le> n"
proof (induction n rule: bit_length.induct)
  case (1 n)
  show ?case
  proof (cases "n div 2 = 0")
    case True
    with 1(2) have "bit_length n = Suc 0"
      by (simp add: bit_length_pos bit_length_0)
    with 1(2) show ?thesis by simp
  next
    case False
    with 1 have "2 ^ (bit_length (n div 2) - 1) \<le> n div 2" by simp
    moreover from False have "bit_length (n div 2) \<noteq> 0"
      by (simp add: bit_length_pos)
    ultimately have "2 ^ bit_length (n div 2) \<le> 2 * (n div 2)"
      by (cases "bit_length (n div 2)") auto
    also have "\<dots> \<le> n" by simp
    finally show ?thesis using 1(2) by (simp add: bit_length_pos)
  qed
qed

lemma bit_length_eqI:
  assumes "2 ^ l \<le> n" and "n < 2 ^ Suc l"
  shows "bit_length n = Suc l"
proof -
  from assms(1) have n: "n \<noteq> 0" by (auto intro: Nat.gr0I)
  have "n < 2 ^ bit_length n" by (rule bit_length_upper)
  with assms(1) have c: "(2::nat) ^ l < 2 ^ bit_length n" by linarith
  have a: "l < bit_length n"
    by (rule power_less_imp_less_exp [OF _ c]) simp
  from bit_length_lower [OF n] assms(2) have b: "(2::nat) ^ (bit_length n - 1) < 2 ^ Suc l"
    by linarith
  have "bit_length n - 1 < Suc l"
    by (rule power_less_imp_less_exp [OF _ b]) simp
  with a show ?thesis by linarith
qed

lemma bit_length_mono: "m \<le> n \<Longrightarrow> bit_length m \<le> bit_length n"
proof (cases "m = 0")
  case True
  then show ?thesis by (simp add: bit_length_0)
next
  case False
  assume "m \<le> n"
  with bit_length_lower [OF False] bit_length_upper [of n]
  have c: "(2::nat) ^ (bit_length m - 1) < 2 ^ bit_length n" by linarith
  have "bit_length m - 1 < bit_length n"
    by (rule power_less_imp_less_exp [OF _ c]) simp
  then show ?thesis by linarith
qed

subsection \<open>Rounding is monotone and idempotent\<close>

lemma round_shift_lower: "(k div 2 ^ s) * 2 ^ s \<le> round_shift s k"
  by (simp add: round_shift_def Let_def)

lemma round_shift_upper: "round_shift s k \<le> (k div 2 ^ s + 1) * 2 ^ s"
  by (simp add: round_shift_def Let_def)

lemma round_shift_mono:
  assumes "j \<le> k"
  shows "round_shift s j \<le> round_shift s k"
proof (cases "j div 2 ^ s = k div 2 ^ s")
  case True
  have "j mod 2 ^ s = j - (j div 2 ^ s) * 2 ^ s" "k mod 2 ^ s = k - (k div 2 ^ s) * 2 ^ s"
    by (simp_all add: minus_div_mult_eq_mod)
  with True assms have "j mod 2 ^ s \<le> k mod 2 ^ s"
    by (simp add: diff_le_mono)
  then have le: "2 * (j mod 2 ^ s) \<le> 2 * (k mod 2 ^ s)" by simp
  show ?thesis
  proof (cases "2 * (k mod 2 ^ s) < 2 ^ s \<or> (2 * (k mod 2 ^ s) = 2 ^ s \<and> even (k div 2 ^ s))")
    case down: True
    with le True
    have "2 * (j mod 2 ^ s) < 2 ^ s \<or> (2 * (j mod 2 ^ s) = 2 ^ s \<and> even (j div 2 ^ s))"
      by (cases "2 * (j mod 2 ^ s) = 2 ^ s") auto
    then have "round_shift s j = (j div 2 ^ s) * 2 ^ s"
      by (simp add: round_shift_def Let_def)
    moreover from down have "round_shift s k = (k div 2 ^ s) * 2 ^ s"
      by (simp add: round_shift_def Let_def)
    ultimately show ?thesis using True by simp
  next
    case up: False
    then have "round_shift s k = (k div 2 ^ s + 1) * 2 ^ s"
      by (simp add: round_shift_def Let_def)
    with round_shift_upper [of s j] True show ?thesis by simp
  qed
next
  case False
  from assms have "j div 2 ^ s \<le> k div 2 ^ s" by (rule div_le_mono)
  with False have "j div 2 ^ s + 1 \<le> k div 2 ^ s" by simp
  then have "(j div 2 ^ s + 1) * 2 ^ s \<le> (k div 2 ^ s) * 2 ^ s"
    by (rule mult_le_mono1)
  with round_shift_upper [of s j] round_shift_lower [of k s] show ?thesis by linarith
qed

lemma round_shift_exact: "k mod 2 ^ s = 0 \<Longrightarrow> round_shift s k = k"
  by (simp add: round_shift_def Let_def mod_eq_0_iff_dvd)

lemma round53_le_power: "round53 k \<le> 2 ^ bit_length k"
proof -
  let ?s = "bit_length k - 53"
  define d where "d = bit_length k - ?s"
  then have l: "bit_length k = d + ?s" by simp
  have split: "(2::nat) ^ bit_length k = 2 ^ d * 2 ^ ?s"
    by (subst l) (rule power_add)
  have "k < 2 ^ bit_length k" by (rule bit_length_upper)
  then have "k < 2 ^ d * 2 ^ ?s" by (simp only: split)
  then have "k div 2 ^ ?s < 2 ^ d"
    by (rule less_mult_imp_div_less)
  then have "k div 2 ^ ?s + 1 \<le> 2 ^ d" by simp
  then have "(k div 2 ^ ?s + 1) * 2 ^ ?s \<le> 2 ^ d * 2 ^ ?s"
    by (rule mult_le_mono1)
  with round_shift_upper [of ?s k] have "round_shift ?s k \<le> 2 ^ d * 2 ^ ?s"
    by (rule order_trans)
  then show ?thesis unfolding split round53_def .
qed

lemma round53_ge_power:
  assumes "k \<noteq> 0"
  shows "2 ^ (bit_length k - 1) \<le> round53 k"
proof -
  let ?s = "bit_length k - 53"
  let ?l = "bit_length k - 1"
  from assms have pos: "bit_length k \<noteq> 0" by (simp add: bit_length_pos)
  then have s: "?s \<le> ?l" by simp
  define d where "d = ?l - ?s"
  with s have l: "?l = d + ?s" by simp
  have split: "(2::nat) ^ ?l = 2 ^ d * 2 ^ ?s"
    unfolding l by (rule power_add)
  with bit_length_lower [OF assms] have "2 ^ d * 2 ^ ?s \<le> k" by simp
  then have "2 ^ d \<le> k div 2 ^ ?s"
    by (simp add: less_eq_div_iff_mult_less_eq)
  then have "2 ^ d * 2 ^ ?s \<le> (k div 2 ^ ?s) * 2 ^ ?s"
    by (rule mult_le_mono1)
  also have "\<dots> \<le> round_shift ?s k" by (rule round_shift_lower)
  finally show ?thesis unfolding split round53_def .
qed

lemma round53_mono:
  assumes "j \<le> k"
  shows "round53 j \<le> round53 k"
proof (cases "bit_length j = bit_length k")
  case True
  with round_shift_mono [OF assms] show ?thesis by (simp add: round53_def)
next
  case False
  with bit_length_mono [OF assms] have less: "bit_length j < bit_length k" by simp
  then have k: "k \<noteq> 0" by (cases "k = 0") (simp_all add: bit_length_0)
  have "round53 j \<le> 2 ^ bit_length j" by (rule round53_le_power)
  also from less have "(2::nat) ^ bit_length j \<le> 2 ^ (bit_length k - 1)"
    by (intro power_increasing) simp_all
  also have "\<dots> \<le> round53 k" by (rule round53_ge_power [OF k])
  finally show ?thesis .
qed

lemma round53_dvd: "2 ^ (bit_length k - 53) dvd round53 k"
  by (simp add: round53_def round_shift_def Let_def)

lemma round53_0: "round53 0 = 0"
  by (simp add: round53_def round_shift_def bit_length_0)

lemma round53_idem: "round53 (round53 k) = round53 k"
proof (cases "k = 0")
  case True
  then show ?thesis by (simp add: round53_0)
next
  case False
  let ?r = "round53 k"
  have lower: "2 ^ (bit_length k - 1) \<le> ?r" by (rule round53_ge_power [OF False])
  have upper: "?r \<le> 2 ^ bit_length k" by (rule round53_le_power)
  from False have pos: "bit_length k \<noteq> 0" by (simp add: bit_length_pos)
  show ?thesis
  proof (cases "?r = 2 ^ bit_length k")
    case True
    have "bit_length ?r = Suc (bit_length k)"
      unfolding True by (rule bit_length_eqI) simp_all
    moreover have "(2::nat) ^ (Suc (bit_length k) - 53) dvd 2 ^ bit_length k"
      by (intro le_imp_power_dvd) simp
    ultimately have "?r mod 2 ^ (bit_length ?r - 53) = 0"
      using True by simp
    then show ?thesis
      unfolding round53_def [of ?r] by (rule round_shift_exact)
  next
    case less: False
    with upper have "?r < 2 ^ bit_length k" by simp
    with lower pos have "bit_length ?r = bit_length k"
      using bit_length_eqI [of "bit_length k - 1" ?r] by simp
    with round53_dvd [of k] have "?r mod 2 ^ (bit_length ?r - 53) = 0"
      by simp
    then show ?thesis
      unfolding round53_def [of ?r] by (rule round_shift_exact)
  qed
qed

lemma fl_mono: "x \<le> y \<Longrightarrow> fl x \<le> fl y"
proof -
  assume "x \<le> y"
  then have "x * 2 ^ 52 \<le> y * 2 ^ 52" by (rule mult_right_mono) simp
  then have "nat \<lfloor>x * 2 ^ 52\<rfloor> \<le> nat \<lfloor>y * 2 ^ 52\<rfloor>"
    by (intro nat_mono floor_mono)
  then have "round53 (nat \<lfloor>x * 2 ^ 52\<rfloor>) \<le> round53 (nat \<lfloor>y * 2 ^ 52\<rfloor>)"
    by (rule round53_mono)
  then have "(of_nat (round53 (nat \<lfloor>x * 2 ^ 52\<rfloor>)) :: rat)
               \<le> of_nat (round53 (nat \<lfloor>y * 2 ^ 52\<rfloor>))"
    by (simp only: of_nat_le_iff)
  then show ?thesis
    unfolding fl_def by (rule divide_right_mono) simp
qed

text \<open>On a multiple of \<open>1 / 2 ^ 52\<close> the floor in \<open>fl\<close> is exact: \<open>fl\<close> rounds the numerator.\<close>

lemma fl_double: "fl (double k) = double (round53 k)"
proof -
  have "(of_nat k / 2 ^ 52 :: rat) * 2 ^ 52 = of_nat k" by simp
  then have "nat \<lfloor>(of_nat k / 2 ^ 52 :: rat) * 2 ^ 52\<rfloor> = k"
    by (simp only: floor_of_nat nat_int)
  then show ?thesis by (simp only: fl_def double_def)
qed

lemma fl_eq_double: "fl x = double (round53 (nat \<lfloor>x * 2 ^ 52\<rfloor>))"
  by (simp only: fl_def double_def)

lemma fl_idem: "fl (fl x) = fl x"
  unfolding fl_eq_double [of x] fl_double round53_idem ..

lemma fl_nonneg: "0 \<le> fl x"
  unfolding fl_def by (rule divide_nonneg_nonneg) simp_all

lemma fl_0: "fl 0 = 0"
  by (simp add: fl_def round53_0)

subsection \<open>Evaluation on numerators\<close>

text \<open>
  The arguments of \<open>fl\<close> in the tool are multiples of \<open>1 / 2 ^ 52\<close>: the product of an
  integer with the literal \<open>1.33\<close>, and the sum of two rounded numbers. So the estimate
  of a text and a sum of estimates are computed on the numerators.
\<close>

lemma double_0: "double 0 = 0"
  by (simp add: double_def)

lemma double_add: "double j + double k = double (j + k)"
  by (simp add: double_def add_divide_distrib)

lemma fadd_numerators: "fadd (double j) (double k) = double (round53 (j + k))"
  by (simp only: fadd_def double_add fl_double)

lemma fadd_0_numerator: "fadd 0 (double k) = double (round53 k)"
  using fadd_numerators [of 0 k] by (simp add: double_0)

lemma float_of_nat_times_1_33:
  "float_of_nat n * float_1_33 = double (round53 n * 5989787504402760)"
  by (simp add: float_of_nat_def float_1_33_def double_def)

lemma fmul_numerator:
  "fmul (float_of_nat n) float_1_33 = double (round53 (round53 n * 5989787504402760))"
  by (simp only: fmul_def float_of_nat_times_1_33 fl_double)

lemma double_le_iff: "double j \<le> double k \<longleftrightarrow> j \<le> k"
  by (simp add: double_def divide_le_cancel)

lemma double_less_iff: "double j < double k \<longleftrightarrow> j < k"
  by (simp add: double_def divide_less_cancel)

lemma double_le_int: "double k \<le> of_int m \<longleftrightarrow> int k \<le> m * 2 ^ 52"
proof -
  have "double k \<le> of_int m \<longleftrightarrow> (of_int (int k) :: rat) \<le> of_int (m * 2 ^ 52)"
    by (simp add: double_def divide_le_eq)
  then show ?thesis by (simp only: of_int_le_iff)
qed

lemma int_less_double: "of_int m < double k \<longleftrightarrow> m * 2 ^ 52 < int k"
  using double_le_int [of k m] by (simp only: not_le [symmetric])

lemma sum_list_double: "sum_list (map double ks) = double (sum_list ks)"
  by (induction ks) (simp_all add: double_0 double_add)

lemma round53_eval:
  "2 ^ l \<le> k \<Longrightarrow> k < 2 ^ Suc l \<Longrightarrow> round53 k = round_shift (Suc l - 53) k"
  by (simp only: round53_def bit_length_eqI)

lemma round53_small:
  assumes "k < 2 ^ 53"
  shows "round53 k = k"
proof (cases "k = 0")
  case True
  then show ?thesis by (simp add: round53_0)
next
  case False
  from bit_length_lower [OF False] assms have c: "(2::nat) ^ (bit_length k - 1) < 2 ^ 53"
    by linarith
  have "bit_length k - 1 < 53"
    by (rule power_less_imp_less_exp [OF _ c]) simp
  then have "bit_length k - 53 = 0" by simp
  then show ?thesis by (simp add: round53_def round_shift_def)
qed

subsection \<open>Sums of doubles\<close>

lemma fadd_ge_left: "0 \<le> b \<Longrightarrow> fl a = a \<Longrightarrow> a \<le> fadd a b"
  unfolding fadd_def using fl_mono [of a "a + b"] by simp

lemma fadd_ge_right: "0 \<le> a \<Longrightarrow> fl b = b \<Longrightarrow> b \<le> fadd a b"
  unfolding fadd_def using fl_mono [of b "a + b"] by simp

lemma fadd_double: "fl (fadd a b) = fadd a b"
  by (simp add: fadd_def fl_idem)

lemma fadd_nonneg: "0 \<le> fadd a b"
  by (simp add: fadd_def fl_nonneg)

lemma foldl_fadd_ge_start:
  assumes "\<forall>y \<in> set xs. 0 \<le> y" and "fl a = a"
  shows "a \<le> foldl fadd a xs"
  using assms
proof (induction xs arbitrary: a)
  case Nil
  then show ?case by simp
next
  case (Cons x xs)
  from Cons.prems have "a \<le> fadd a x" by (simp add: fadd_ge_left)
  also from Cons.prems have "fadd a x \<le> foldl fadd (fadd a x) xs"
    by (intro Cons.IH) (simp_all add: fadd_double)
  finally show ?case by simp
qed

lemma foldl_fadd_double: "fl a = a \<Longrightarrow> fl (foldl fadd a xs) = foldl fadd a xs"
  by (induction xs arbitrary: a) (simp_all add: fadd_double)

lemma foldl_fadd_nonneg: "0 \<le> a \<Longrightarrow> 0 \<le> foldl fadd a xs"
  by (induction xs arbitrary: a) (simp_all add: fadd_nonneg)

lemma foldl_fadd_ge_member:
  assumes "x \<in> set xs" and "\<forall>y \<in> set xs. 0 \<le> y \<and> fl y = y" and "0 \<le> a" and "fl a = a"
  shows "x \<le> foldl fadd a xs"
proof -
  from assms(1) obtain ys zs where xs: "xs = ys @ x # zs"
    by (auto simp: in_set_conv_decomp)
  let ?s = "foldl fadd a ys"
  from assms(3) have "0 \<le> ?s" by (rule foldl_fadd_nonneg)
  moreover from assms(2) xs have x: "fl x = x" by simp
  ultimately have "x \<le> fadd ?s x" by (simp add: fadd_ge_right)
  also from assms(2) xs have "fadd ?s x \<le> foldl fadd (fadd ?s x) zs"
    by (intro foldl_fadd_ge_start) (simp_all add: fadd_double)
  finally show ?thesis by (simp add: xs)
qed

lemma naive_sum_single: "fl x = x \<Longrightarrow> naive_sum [x] = x"
  by (simp add: naive_sum_def fadd_def)

lemma naive_sum_snoc: "naive_sum (xs @ [x]) = fadd (naive_sum xs) x"
  by (simp add: naive_sum_def)

section \<open>Properties of the pure components\<close>

subsection \<open>Words and the token estimate\<close>

lemma estimate_tokens_nonneg: "0 \<le> estimate_tokens text"
  by (simp add: estimate_tokens_def fmul_def fl_nonneg)

lemma estimate_tokens_double: "fl (estimate_tokens text) = estimate_tokens text"
  by (simp add: estimate_tokens_def fmul_def fl_idem)

text \<open>
  Both roundings of the estimate (of the word count to a float, of the product to a float)
  are monotone, so the estimate is monotone in the word count.
\<close>

lemma estimate_words_mono:
  assumes "m \<le> n"
  shows "fmul (float_of_nat m) float_1_33 \<le> fmul (float_of_nat n) float_1_33"
proof -
  from assms have "round53 m \<le> round53 n" by (rule round53_mono)
  then have "(of_nat (round53 m) :: rat) \<le> of_nat (round53 n)"
    by (simp only: of_nat_le_iff)
  then have "float_of_nat m * float_1_33 \<le> float_of_nat n * float_1_33"
    unfolding float_of_nat_def by (rule mult_right_mono) (simp add: float_1_33_def)
  then show ?thesis unfolding fmul_def by (rule fl_mono)
qed

lemma split_from_nonempty: "w \<noteq> [] \<Longrightarrow> split_from w s \<noteq> []"
  by (induction s arbitrary: w) auto

lemma split_from_prefix_length:
  "length (split_from w a) \<le> length (split_from w (a @ s))"
proof (induction a arbitrary: w)
  case Nil
  then show ?case using split_from_nonempty [of w s] by (cases "split_from w s") auto
next
  case (Cons c a)
  then show ?case by simp
qed

text \<open>Cutting a text short never adds a word, so the estimate is monotone along prefixes.\<close>

lemma estimate_tokens_prefix_mono:
  assumes "prefix a b"
  shows "estimate_tokens a \<le> estimate_tokens b"
proof -
  from assms obtain s where "b = a @ s" by (auto simp: prefix_def)
  then have "length (split a) \<le> length (split b)"
    by (simp add: split_def split_from_prefix_length)
  then show ?thesis
    unfolding estimate_tokens_def by (rule estimate_words_mono)
qed

text \<open>The estimate of a text of \<open>n\<close> words, on the numerator.\<close>

lemma estimate_words:
  assumes "length (split text) = n" and "n < 2 ^ 53"
  shows "estimate_tokens text = double (round53 (n * 5989787504402760))"
  using assms by (simp only: estimate_tokens_def fmul_numerator round53_small)

lemma split_from_repeated_words:
  "split_from [] (concat (replicate n ''w '') @ s) = replicate n ''w'' @ split_from [] s"
  by (induction n) (simp_all add: isspace_def)

lemma length_split_repeated_words: "length (split (repeated_words n)) = n"
  using split_from_repeated_words [of n "[]"] by (simp add: split_def repeated_words_def)

lemma length_split_capital_words: "0 < n \<Longrightarrow> length (split (capital_words n)) = n"
  using split_from_repeated_words [of "n - 1" "[]"]
  by (simp add: split_def capital_words_def repeated_words_def isspace_def)

lemma estimate_repeated_words:
  "n < 2 ^ 53 \<Longrightarrow> estimate_tokens (repeated_words n) = double (round53 (n * 5989787504402760))"
  by (rule estimate_words) (simp_all add: length_split_repeated_words)

lemma estimate_capital_words:
  "0 < n \<Longrightarrow> n < 2 ^ 53
   \<Longrightarrow> estimate_tokens (capital_words n) = double (round53 (n * 5989787504402760))"
  by (rule estimate_words) (simp_all add: length_split_capital_words)

text \<open>
  Claim C8 (token estimate monotonicity): for all texts \<open>a\<close> and \<open>b\<close> where \<open>a\<close> is a
  prefix of \<open>b\<close> and \<open>b\<close> has strictly more whitespace-delimited words than \<open>a\<close>, the
  estimate of \<open>a\<close> is at most the estimate of \<open>b\<close>.
\<close>

theorem estimate_tokens_monotone:
  assumes "prefix a b" and "length (split a) < length (split b)"
  shows "estimate_tokens a \<le> estimate_tokens b"
proof -
  from assms(2) have "length (split a) \<le> length (split b)"
    by simp
  then show ?thesis
    unfolding estimate_tokens_def by (rule estimate_words_mono)
qed

theorem estimate_tokens_monotone_witness:
  "prefix ''capital'' ''capital base''
   \<and> length (split ''capital'') < length (split ''capital base'')
   \<and> estimate_tokens ''capital'' \<le> estimate_tokens ''capital base''"
proof -
  have p: "prefix ''capital'' ''capital base''" by simp
  have w: "length (split ''capital'') < length (split ''capital base'')"
    by (simp add: split_def isspace_def)
  from p w estimate_tokens_monotone [OF p w] show ?thesis by blast
qed

subsection \<open>Prioritization\<close>

lemma insort_key_scored:
  "insort_key snd (c, f c) (map (\<lambda>x. (x, f x)) ys) = map (\<lambda>x. (x, f x)) (insort_key f c ys)"
  by (induction ys) simp_all

lemma sort_key_scored:
  "sort_key snd (map (\<lambda>x. (x, f x)) xs) = map (\<lambda>x. (x, f x)) (sort_key f xs)"
  by (induction xs) (simp_all add: insort_key_scored)

lemma sorted_reverse_scored:
  "map fst (sorted_reverse snd (map (\<lambda>x. (x, f x)) xs)) = sorted_reverse f xs"
proof -
  have "sort_key snd (rev (map (\<lambda>x. (x, f x)) xs)) = map (\<lambda>x. (x, f x)) (sort_key f (rev xs))"
    by (simp only: rev_map sort_key_scored)
  then show ?thesis
    by (simp add: sorted_reverse_def rev_map comp_def)
qed

text \<open>Sorting the scored pairs and dropping the scores is sorting the chunks by their score.\<close>

lemma prioritize_chunks_eq:
  "prioritize_chunks chunks query
     = sorted_reverse (relevance_score (set (split (lower query)))) chunks"
  by (simp add: prioritize_chunks_def Let_def sorted_reverse_scored)

lemma sorted_reverse_descending:
  "sorted_wrt (\<lambda>x y. key x \<ge> key y) (sorted_reverse key xs)"
proof -
  have "sorted (map key (sort_key key (rev xs)))" by simp
  then have "sorted_wrt (\<lambda>x y. key x \<le> key y) (sort_key key (rev xs))"
    by (simp add: sorted_map)
  then show ?thesis
    by (simp add: sorted_reverse_def sorted_wrt_rev)
qed

lemma sorted_reverse_stable:
  "filter (\<lambda>x. key x = k) (sorted_reverse key xs) = filter (\<lambda>x. key x = k) xs"
  by (simp add: sorted_reverse_def rev_filter [symmetric] sort_key_stable)

lemma mset_sorted_reverse: "mset (sorted_reverse key xs) = mset xs"
  by (simp add: sorted_reverse_def)

lemma sorted_reverse_const:
  assumes "\<forall>x \<in> set xs. key x = k"
  shows "sorted_reverse key xs = xs"
proof -
  have "set (sorted_reverse key xs) = set xs"
    using mset_sorted_reverse [of key xs] by (metis set_mset_mset)
  with assms have "filter (\<lambda>x. key x = k) (sorted_reverse key xs) = sorted_reverse key xs"
    by (simp add: filter_id_conv)
  moreover from assms have "filter (\<lambda>x. key x = k) xs = xs"
    by (simp add: filter_id_conv)
  ultimately show ?thesis using sorted_reverse_stable [of key k xs] by simp
qed

lemma mset_prioritize_chunks: "mset (prioritize_chunks chunks query) = mset chunks"
  by (simp add: prioritize_chunks_eq mset_sorted_reverse)

lemma length_prioritize_chunks: "length (prioritize_chunks chunks query) = length chunks"
  using mset_prioritize_chunks [of chunks query] by (metis size_mset)

lemma prioritize_example:
  "prioritize_chunks
     [''the capital base'', ''requirements and capital adequacy'', ''unrelated text'']
     ''capital requirements''
   = [''requirements and capital adequacy'', ''the capital base'', ''unrelated text'']"
  by code_simp

text \<open>
  Claim C7 (prioritization order): for every fragment list and query,
  \<open>prioritize_chunks\<close> returns the same fragments, sorted in descending order of the
  number of distinct lowercase query words that are words of the lowercased fragment;
  fragments of equal score keep their original relative order (for each score, the
  fragments with that score appear in the output as in the input). In particular, when
  every fragment has score 0 the output is the input list, and for the query
  \<open>capital requirements\<close> the three fragments of the example come out second, first,
  third.
\<close>

theorem prioritize_chunks_order:
  "mset (prioritize_chunks chunks query) = mset chunks
   \<and> sorted_wrt
        (\<lambda>x y. card (set (split (lower query)) \<inter> set (split (lower x)))
                 \<ge> card (set (split (lower query)) \<inter> set (split (lower y))))
        (prioritize_chunks chunks query)
   \<and> (\<forall>k. filter (\<lambda>x. card (set (split (lower query)) \<inter> set (split (lower x))) = k)
              (prioritize_chunks chunks query)
          = filter (\<lambda>x. card (set (split (lower query)) \<inter> set (split (lower x))) = k) chunks)
   \<and> ((\<forall>chunk \<in> set chunks. card (set (split (lower query)) \<inter> set (split (lower chunk))) = 0)
        \<longrightarrow> prioritize_chunks chunks query = chunks)
   \<and> prioritize_chunks
        [''the capital base'', ''requirements and capital adequacy'', ''unrelated text'']
        ''capital requirements''
      = [''requirements and capital adequacy'', ''the capital base'', ''unrelated text'']"
proof -
  let ?score = "relevance_score (set (split (lower query)))"
  have score: "?score = (\<lambda>x. card (set (split (lower query)) \<inter> set (split (lower x))))"
    by (simp add: relevance_score_def fun_eq_iff)
  have "mset (prioritize_chunks chunks query) = mset chunks"
    by (rule mset_prioritize_chunks)
  moreover have "sorted_wrt (\<lambda>x y. ?score x \<ge> ?score y) (prioritize_chunks chunks query)"
    unfolding prioritize_chunks_eq by (rule sorted_reverse_descending)
  moreover have "\<forall>k. filter (\<lambda>x. ?score x = k) (prioritize_chunks chunks query)
                       = filter (\<lambda>x. ?score x = k) chunks"
    unfolding prioritize_chunks_eq by (simp add: sorted_reverse_stable)
  moreover have "(\<forall>chunk \<in> set chunks. ?score chunk = 0)
                   \<longrightarrow> prioritize_chunks chunks query = chunks"
    unfolding prioritize_chunks_eq using sorted_reverse_const [of chunks ?score 0] by blast
  ultimately show ?thesis
    unfolding score using prioritize_example by blast
qed

theorem prioritize_chunks_order_witness:
  "card (set (split (lower ''capital requirements'')) \<inter> set (split (lower ''unrelated text''))) = 0
   \<and> card (set (split (lower ''capital requirements'')) \<inter> set (split (lower ''the weather''))) = 0
   \<and> prioritize_chunks [''unrelated text'', ''the weather''] ''capital requirements''
       = [''unrelated text'', ''the weather'']"
proof -
  have z1: "card (set (split (lower ''capital requirements''))
                    \<inter> set (split (lower ''unrelated text''))) = 0"
    by code_simp
  have z2: "card (set (split (lower ''capital requirements''))
                    \<inter> set (split (lower ''the weather''))) = 0"
    by code_simp
  from z1 z2 have "\<forall>chunk \<in> set [''unrelated text'', ''the weather''].
      card (set (split (lower ''capital requirements'')) \<inter> set (split (lower chunk))) = 0"
    by simp
  with prioritize_chunks_order [of "[''unrelated text'', ''the weather'']" "''capital requirements''"]
  have "prioritize_chunks [''unrelated text'', ''the weather''] ''capital requirements''
          = [''unrelated text'', ''the weather'']"
    by blast
  with z1 z2 show ?thesis by blast
qed

subsection \<open>Batch planning\<close>

lemma create_batches_loop_concat:
  "concat (create_batches_loop cfg chunks batches current_batch current_tokens)
     = concat batches @ current_batch @ chunks"
  by (induction chunks arbitrary: batches current_batch current_tokens) (simp_all add: Let_def)

lemma concat_create_batches: "concat (create_batches cfg chunks) = chunks"
  by (simp add: create_batches_def create_batches_loop_concat)

text \<open>
  Claim C1 (batch partition invariant): for every list of fragments and every budget
  (positive or not), concatenating the batches returned by \<open>create_batches\<close>, in order,
  gives exactly the input list: no fragment is duplicated, dropped or reordered.
\<close>

theorem create_batches_partition: "concat (create_batches cfg chunks) = chunks"
  by (simp add: create_batches_def create_batches_loop_concat)

lemma naive_sum_estimate_single: "naive_sum [estimate_tokens chunk] = estimate_tokens chunk"
  by (rule naive_sum_single) (rule estimate_tokens_double)

lemma within_budget_single: "within_budget cfg [chunk]"
  by (auto simp: within_budget_def naive_sum_estimate_single)

text \<open>
  The loop invariant: the closed batches and the open one satisfy the budget condition,
  and \<open>current_tokens\<close> is the sum of the open batch, added from left to right.
\<close>

lemma create_batches_loop_budget:
  assumes "\<forall>b \<in> set batches. within_budget cfg b"
    and "current_batch = [] \<or> within_budget cfg current_batch"
    and "current_tokens = naive_sum (map estimate_tokens current_batch)"
  shows "\<forall>b \<in> set (create_batches_loop cfg chunks batches current_batch current_tokens).
           within_budget cfg b"
  using assms
proof (induction chunks arbitrary: batches current_batch current_tokens)
  case Nil
  then show ?case by auto
next
  case (Cons chunk chunks)
  show ?case
  proof (cases "fadd current_tokens (estimate_tokens chunk) > of_int (max_content_tokens cfg)
                  \<and> current_batch \<noteq> []")
    case True
    have "\<forall>b \<in> set (create_batches_loop cfg chunks (batches @ [current_batch]) [chunk]
                      (estimate_tokens chunk)). within_budget cfg b"
      using Cons.prems True
      by (intro Cons.IH) (auto simp: within_budget_single naive_sum_estimate_single)
    with True show ?thesis by (simp add: Let_def)
  next
    case False
    have total: "fadd current_tokens (estimate_tokens chunk)
                   = naive_sum (map estimate_tokens (current_batch @ [chunk]))"
      by (simp add: Cons.prems(3) naive_sum_snoc)
    have wb: "within_budget cfg (current_batch @ [chunk])"
    proof (cases "current_batch = []")
      case True
      then show ?thesis by (simp add: within_budget_single)
    next
      case nonempty: False
      with False total show ?thesis
        by (simp add: within_budget_def)
    qed
    have "\<forall>b \<in> set (create_batches_loop cfg chunks batches (current_batch @ [chunk])
                      (fadd current_tokens (estimate_tokens chunk))). within_budget cfg b"
      using Cons.prems(1) wb total by (intro Cons.IH) auto
    with False show ?thesis by (auto simp: Let_def)
  qed
qed

lemma create_batches_budget:
  "b \<in> set (create_batches cfg chunks) \<Longrightarrow> within_budget cfg b"
  using create_batches_loop_budget [of "[]" cfg "[]" 0 chunks]
  by (simp add: create_batches_def naive_sum_def)

lemma estimate_le_naive_sum:
  assumes "chunk \<in> set batch"
  shows "estimate_tokens chunk \<le> naive_sum (map estimate_tokens batch)"
  unfolding naive_sum_def
proof (rule foldl_fadd_ge_member)
  from assms show "estimate_tokens chunk \<in> set (map estimate_tokens batch)" by simp
  show "\<forall>y \<in> set (map estimate_tokens batch). 0 \<le> y \<and> fl y = y"
    by (auto simp: estimate_tokens_nonneg estimate_tokens_double)
qed (simp_all add: fl_0)

lemma oversized_alone:
  assumes "chunk \<in> set chunks" and "estimate_tokens chunk > of_int (max_content_tokens cfg)"
  shows "[chunk] \<in> set (create_batches cfg chunks)"
proof -
  from assms(1) have "chunk \<in> set (concat (create_batches cfg chunks))"
    by (simp add: concat_create_batches)
  then obtain b where b: "b \<in> set (create_batches cfg chunks)" "chunk \<in> set b"
    by auto
  from create_batches_budget [OF b(1)] estimate_le_naive_sum [OF b(2)] assms(2)
  have "b = [chunk]" using b(2) by (auto simp: within_budget_def)
  with b(1) show ?thesis by simp
qed

text \<open>
  The planner compares the running total of the open batch, a double to which each
  estimate is added in turn, with the budget. The exact sum of the same estimates can be
  larger than that total. Under a budget of 133, the fragments of 39, 1 and 60 words
  have the running totals 51.87, 53.2 and 133.0 (the last addition rounds down), so the
  planner returns them as one batch; the exact sum of the three estimates is over 133.
\<close>

theorem create_batches_exact_sum_counterexample:
  "create_batches config_budget_133 fragments_39_1_60 = [fragments_39_1_60]
   \<and> length fragments_39_1_60 = 3
   \<and> sum_list (map estimate_tokens fragments_39_1_60)
       > of_int (max_content_tokens config_budget_133)"
proof -
  have e1: "estimate_tokens (repeated_words 39) = double 233601712671707648"
    using estimate_repeated_words [of 39] by (simp add: round53_eval [of 57] round_shift_def)
  have e2: "estimate_tokens (repeated_words 1) = double 5989787504402760"
    using estimate_repeated_words [of 1] by (simp add: round53_small)
  have e3: "estimate_tokens (repeated_words 60) = double 359387250264165632"
    using estimate_repeated_words [of 60] by (simp add: round53_eval [of 58] round_shift_def)
  have s1: "fadd 0 (double 233601712671707648) = double 233601712671707648"
    by (simp add: fadd_0_numerator round53_eval [of 57] round_shift_def)
  have c1: "\<not> of_int (max_content_tokens config_budget_133) < double 233601712671707648"
    by (simp only: int_less_double)
       (simp add: max_content_tokens_def config_budget_133_def RefineConfig_default_def)
  have s2: "fadd (double 233601712671707648) (double 5989787504402760) = double 239591500176110400"
    by (simp add: fadd_numerators round53_eval [of 57] round_shift_def)
  have c2: "\<not> of_int (max_content_tokens config_budget_133) < double 239591500176110400"
    by (simp only: int_less_double)
       (simp add: max_content_tokens_def config_budget_133_def RefineConfig_default_def)
  have s3: "fadd (double 239591500176110400) (double 359387250264165632) = double 598978750440275968"
    by (simp add: fadd_numerators round53_eval [of 59] round_shift_def)
  have c3: "\<not> of_int (max_content_tokens config_budget_133) < double 598978750440275968"
    by (simp only: int_less_double)
       (simp add: max_content_tokens_def config_budget_133_def RefineConfig_default_def)
  have over: "of_int (max_content_tokens config_budget_133) < double 598978750440276040"
    by (simp only: int_less_double)
       (simp add: max_content_tokens_def config_budget_133_def RefineConfig_default_def)
  have batches: "create_batches config_budget_133 fragments_39_1_60 = [fragments_39_1_60]"
    by (simp add: create_batches_def fragments_39_1_60_def Let_def e1 e2 e3 s1 c1 s2 c2 s3 c3
          del: One_nat_def)
  have "sum_list (map estimate_tokens fragments_39_1_60) = double 598978750440276040"
    by (simp add: fragments_39_1_60_def e1 e2 e3 double_add del: One_nat_def)
  with over have exact: "sum_list (map estimate_tokens fragments_39_1_60)
                           > of_int (max_content_tokens config_budget_133)"
    by (simp only:)
  have three: "length fragments_39_1_60 = 3"
    by (simp add: fragments_39_1_60_def)
  show ?thesis
    by (intro conjI batches three exact)
qed

text \<open>
  Claim C2 (batch budget invariant), as amended: every batch produced by
  \<open>create_batches\<close> either has estimates that, added from left to right in double
  arithmetic (the planner's running total), give at most \<open>max_content_tokens\<close>, or
  consists of exactly one fragment whose own estimate exceeds \<open>max_content_tokens\<close>;
  and every fragment whose own estimate exceeds the budget is, unsplit, a batch of its
  own.
\<close>

theorem create_batches_within_budget:
  "(\<forall>batch \<in> set (create_batches cfg chunks).
       naive_sum (map estimate_tokens batch) \<le> of_int (max_content_tokens cfg)
       \<or> (\<exists>chunk. batch = [chunk] \<and> estimate_tokens chunk > of_int (max_content_tokens cfg)))
   \<and> (\<forall>chunk \<in> set chunks.
         estimate_tokens chunk > of_int (max_content_tokens cfg)
         \<longrightarrow> [chunk] \<in> set (create_batches cfg chunks))"
  using create_batches_budget [of _ cfg chunks] oversized_alone [of _ chunks cfg]
  unfolding within_budget_def by blast

theorem create_batches_within_budget_witness:
  "[''a b'', ''c''] \<in> set (create_batches config_budget_4 [''a b'', ''c'', ''d e f g'', ''h''])
   \<and> naive_sum (map estimate_tokens [''a b'', ''c'']) \<le> of_int (max_content_tokens config_budget_4)
   \<and> ''d e f g'' \<in> set [''a b'', ''c'', ''d e f g'', ''h'']
   \<and> estimate_tokens ''d e f g'' > of_int (max_content_tokens config_budget_4)
   \<and> [''d e f g''] \<in> set (create_batches config_budget_4 [''a b'', ''c'', ''d e f g'', ''h''])"
proof -
  have e1: "estimate_tokens ''a b'' = double 11979575008805520"
    using estimate_words [of "''a b''" 2] by (simp add: split_def isspace_def round53_eval [of 53] round_shift_def)
  have e2: "estimate_tokens ''c'' = double 5989787504402760"
    using estimate_words [of "''c''" 1] by (simp add: split_def isspace_def round53_small)
  have e3: "estimate_tokens ''d e f g'' = double 23959150017611040"
    using estimate_words [of "''d e f g''" 4] by (simp add: split_def isspace_def round53_eval [of 54] round_shift_def)
  have e4: "estimate_tokens ''h'' = double 5989787504402760"
    using estimate_words [of "''h''" 1] by (simp add: split_def isspace_def round53_small)
  have s1: "fadd 0 (double 11979575008805520) = double 11979575008805520"
    by (simp add: fadd_0_numerator round53_eval [of 53] round_shift_def)
  have c1: "\<not> of_int (max_content_tokens config_budget_4) < double 11979575008805520"
    by (simp only: int_less_double)
       (simp add: max_content_tokens_def config_budget_4_def RefineConfig_default_def)
  have s2: "fadd (double 11979575008805520) (double 5989787504402760) = double 17969362513208280"
    by (simp add: fadd_numerators round53_eval [of 53] round_shift_def)
  have c2: "\<not> of_int (max_content_tokens config_budget_4) < double 17969362513208280"
    by (simp only: int_less_double)
       (simp add: max_content_tokens_def config_budget_4_def RefineConfig_default_def)
  have s3: "fadd (double 17969362513208280) (double 23959150017611040) = double 41928512530819320"
    by (simp add: fadd_numerators round53_eval [of 55] round_shift_def)
  have c3: "of_int (max_content_tokens config_budget_4) < double 41928512530819320"
    by (simp only: int_less_double)
       (simp add: max_content_tokens_def config_budget_4_def RefineConfig_default_def)
  have s4: "fadd (double 23959150017611040) (double 5989787504402760) = double 29948937522013800"
    by (simp add: fadd_numerators round53_eval [of 54] round_shift_def)
  have c4: "of_int (max_content_tokens config_budget_4) < double 29948937522013800"
    by (simp only: int_less_double)
       (simp add: max_content_tokens_def config_budget_4_def RefineConfig_default_def)
  have small12: "double 17969362513208280 \<le> of_int (max_content_tokens config_budget_4)"
    by (simp only: double_le_int)
       (simp add: max_content_tokens_def config_budget_4_def RefineConfig_default_def)
  have big4: "of_int (max_content_tokens config_budget_4) < double 23959150017611040"
    by (simp only: int_less_double)
       (simp add: max_content_tokens_def config_budget_4_def RefineConfig_default_def)
  have batches: "create_batches config_budget_4 [''a b'', ''c'', ''d e f g'', ''h'']
                   = [[''a b'', ''c''], [''d e f g''], [''h'']]"
    by (simp add: create_batches_def Let_def e1 e2 e3 e4 s1 c1 s2 c2 s3 c3 s4 c4)
  have "naive_sum (map estimate_tokens [''a b'', ''c'']) = double 17969362513208280"
    by (simp add: naive_sum_def e1 e2 s1 s2)
  with small12 have small: "naive_sum (map estimate_tokens [''a b'', ''c''])
                 \<le> of_int (max_content_tokens config_budget_4)"
    by (simp only:)
  from big4 have big: "estimate_tokens ''d e f g'' > of_int (max_content_tokens config_budget_4)"
    by (simp only: e3)
  have mem: "''d e f g'' \<in> set [''a b'', ''c'', ''d e f g'', ''h'']" by simp
  from create_batches_within_budget
         [of config_budget_4 "[''a b'', ''c'', ''d e f g'', ''h'']"] mem big
  have "[''d e f g''] \<in> set (create_batches config_budget_4 [''a b'', ''c'', ''d e f g'', ''h''])"
    by blast
  with batches small mem big show ?thesis by simp
qed

lemma create_batches_loop_cong:
  "max_content_tokens cfg = max_content_tokens cfg' \<Longrightarrow>
   create_batches_loop cfg chunks batches current_batch current_tokens
     = create_batches_loop cfg' chunks batches current_batch current_tokens"
  by (induction chunks arbitrary: batches current_batch current_tokens) (simp_all add: Let_def)

text \<open>
  Claim C9 (\<open>average_chunk_tokens\<close> does not interfere with packing): two configurations
  that differ only in \<open>average_chunk_tokens\<close> give the same batches for every fragment
  list. (The setting is read by \<open>chunks_per_batch\<close> only.)
\<close>

theorem create_batches_ignores_average_chunk_tokens:
  "create_batches (cfg\<lparr>average_chunk_tokens := a\<rparr>) chunks
     = create_batches (cfg\<lparr>average_chunk_tokens := a'\<rparr>) chunks"
  unfolding create_batches_def
  by (rule create_batches_loop_cong) (simp add: max_content_tokens_def)

end
